theory Spec2Isabelle
  imports Main "HOL-Library.Sublist"
begin

section \<open>pCloud sync over WebDAV: a model of \<open>scripts/pcloud/pcloud_sync.py\<close>\<close>

text \<open>
  The script is a sequential WebDAV client. Its functions are modelled as state-passing
  functions over a \<open>world\<close>: the state of everything outside the process (the remote
  server and the local disk that downloads write to) together with the trace of the
  actions the process has performed so far. The outside is a parameter \<open>env\<close>, a function
  from its state and an action to a reply and a new state, so every theorem holds for
  every server behaviour. Strings are byte strings (a Python \<open>str\<close> is read as its UTF-8
  encoding, and a digit is an ASCII digit). Output written with \<open>print\<close> is not part
  of the model. The local tree that an upload walks is a value: its files exist and can
  be read while the walk runs. The function \<open>get_file_hash\<close> is called nowhere in the
  script and has no counterpart here.
\<close>

subsection \<open>String helpers of the Python library\<close>

text \<open>\<open>str.startswith\<close> is \<^const>\<open>prefix\<close>, \<open>str.endswith\<close> is \<^const>\<open>suffix\<close>.\<close>

text \<open>\<open>sub in s\<close> for strings.\<close>

fun str_contains :: "string \<Rightarrow> string \<Rightarrow> bool" where
  "str_contains sub [] = (sub = [])"
| "str_contains sub (c # cs) = (prefix sub (c # cs) \<or> str_contains sub cs)"

text \<open>
  \<open>s.split(sep)\<close> for a non-empty separator: the pieces between the non-overlapping
  occurrences of \<open>sep\<close>, found from the left. The second argument counts the characters
  of a separator just matched that are still to be skipped.
\<close>

fun split_from :: "string \<Rightarrow> nat \<Rightarrow> string \<Rightarrow> string \<Rightarrow> string list" where
  "split_from sep k cur [] = [rev cur]"
| "split_from sep (Suc k) cur (c # cs) = split_from sep k cur cs"
| "split_from sep 0 cur (c # cs) =
     (if prefix sep (c # cs) then rev cur # split_from sep (length sep - 1) [] cs
      else split_from sep 0 (c # cur) cs)"

definition split :: "string \<Rightarrow> string \<Rightarrow> string list" where
  "split s sep = split_from sep 0 [] s"

text \<open>\<open>sep.join(parts)\<close>.\<close>

fun join :: "string \<Rightarrow> string list \<Rightarrow> string" where
  "join sep [] = []"
| "join sep [p] = p"
| "join sep (p # q # ps) = p @ sep @ join sep (q # ps)"

text \<open>\<open>s.rstrip(c)\<close> for one character.\<close>

definition rstrip :: "string \<Rightarrow> char \<Rightarrow> string" where
  "rstrip s c = rev (dropWhile (\<lambda>x. x = c) (rev s))"

text \<open>\<open>str(n)\<close> and \<open>int(s)\<close> on decimal digits.\<close>

definition digit_char :: "nat \<Rightarrow> char" where
  "digit_char d = char_of (48 + d)"

fun str_nat :: "nat \<Rightarrow> string" where
  "str_nat n = (if n < 10 then [digit_char n] else str_nat (n div 10) @ [digit_char (n mod 10)])"

declare str_nat.simps [simp del]

definition is_digit :: "char \<Rightarrow> bool" where
  "is_digit c = (c \<in> set ''0123456789'')"

definition int_of_digits :: "string \<Rightarrow> nat" where
  "int_of_digits ds = foldl (\<lambda>n c. 10 * n + (of_char c - 48)) 0 ds"

text \<open>The f-string rendering of a value that is an integer or \<open>None\<close>.\<close>

definition str_opt :: "nat option \<Rightarrow> string" where
  "str_opt v = (case v of None \<Rightarrow> ''None'' | Some n \<Rightarrow> str_nat n)"

text \<open>
  \<open>re.search(opn + '(' + cls + '+)' + clo, s)\<close>, returning group 1, for the two shapes the
  script uses: a literal opening tag, a non-empty greedy run of one character class, a
  literal closing tag whose first character is outside the class (so the run is maximal
  in every match). The leftmost match wins.
\<close>

fun re_search_tag :: "string \<Rightarrow> (char \<Rightarrow> bool) \<Rightarrow> string \<Rightarrow> string \<Rightarrow> string option" where
  "re_search_tag opn cls clo [] = None"
| "re_search_tag opn cls clo (c # cs) =
     (if prefix opn (c # cs) \<and>
         takeWhile cls (drop (length opn) (c # cs)) \<noteq> [] \<and>
         prefix clo (dropWhile cls (drop (length opn) (c # cs)))
      then Some (takeWhile cls (drop (length opn) (c # cs)))
      else re_search_tag opn cls clo cs)"

subsection \<open>Percent-encoding: \<open>urllib.parse.quote\<close> and \<open>unquote\<close>\<close>

definition always_safe :: "string" where
  "always_safe =
     ''ABCDEFGHIJKLMNOPQRSTUVWXYZabcdefghijklmnopqrstuvwxyz0123456789_.-~''"

definition hex_digit :: "nat \<Rightarrow> char" where
  "hex_digit d = ''0123456789ABCDEF'' ! d"

definition percent :: "char \<Rightarrow> string" where
  "percent c = [CHR ''%'', hex_digit (of_char c div 16), hex_digit (of_char c mod 16)]"

text \<open>\<open>quote(s, safe)\<close>: every byte outside the unreserved set and \<open>safe\<close> becomes \<open>%XX\<close>.\<close>

definition quote :: "string \<Rightarrow> string \<Rightarrow> string" where
  "quote s safe =
     concat (map (\<lambda>c. if c \<in> set always_safe \<or> c \<in> set safe then [c] else percent c) s)"

definition hex_val :: "char \<Rightarrow> nat option" where
  "hex_val c =
     (if c \<in> set ''0123456789'' then Some (of_char c - 48)
      else if c \<in> set ''abcdef'' then Some (of_char c - 87)
      else if c \<in> set ''ABCDEF'' then Some (of_char c - 55)
      else None)"

text \<open>\<open>unquote(s)\<close> on bytes: \<open>%XX\<close> with two hex digits becomes the byte, any other
  \<open>%\<close> stays.\<close>

fun unquote :: "string \<Rightarrow> string" where
  "unquote (p # a # b # cs) =
     (case (p = CHR ''%'', hex_val a, hex_val b) of
        (True, Some h, Some l) \<Rightarrow> char_of (16 * h + l) # unquote cs
      | _ \<Rightarrow> p # unquote (a # b # cs))"
| "unquote cs = cs"

subsection \<open>The outside world\<close>

datatype http_method = PROPFIND | GET | PUT | MKCOL

text \<open>
  What the process does to the outside: an HTTP request (method, URL, \<open>Depth\<close> header,
  payload), \<open>Path.mkdir(parents=True, exist_ok=True)\<close>, storing a downloaded body in a
  local file (lines 134 to 143 of the script: the parent directory, the size report and
  the write), and \<open>time.sleep\<close> in milliseconds.
\<close>

datatype action =
    Http http_method string "string option" "string option"
  | Mkdir string
  | WriteFile string string
  | Sleep nat

text \<open>A reply: an HTTP response (status code, body), an exception, or plain completion.\<close>

datatype reply = Response nat string | Raised | Done

record 'w world =
  outside :: 'w
  trace :: "action list"

type_synonym 'w env = "'w \<Rightarrow> action \<Rightarrow> reply \<times> 'w"

definition perform :: "'w env \<Rightarrow> action \<Rightarrow> 'w world \<Rightarrow> reply \<times> 'w world" where
  "perform env a w =
     (let (r, s) = env (outside w) a in (r, \<lparr>outside = s, trace = trace w @ [a]\<rparr>))"

definition sleep :: "nat \<Rightarrow> 'w world \<Rightarrow> 'w world" where
  "sleep ms w = w\<lparr>trace := trace w @ [Sleep ms]\<rparr>"

text \<open>The pause before the next attempt of a retry loop: none after the last attempt.\<close>

definition backoff :: "nat \<Rightarrow> nat \<Rightarrow> nat \<Rightarrow> 'w world \<Rightarrow> 'w world" where
  "backoff ms attempt max_retries w = (if attempt < max_retries - 1 then sleep ms w else w)"

subsection \<open>Path codec\<close>

definition get_webdav_url :: "string \<Rightarrow> string \<Rightarrow> string" where
  "get_webdav_url base_url path =
     (let path = (if \<not> prefix ''/'' path then ''/'' @ path else path);
          encoded_path = quote path ''/''
      in base_url @ encoded_path)"

subsection \<open>Directory lister\<close>

text \<open>One \<open><D:response\<close> block of a multi-status body, added to the lists built so far.\<close>

definition parse_block ::
  "string \<Rightarrow> string list \<times> string list \<Rightarrow> string \<Rightarrow> string list \<times> string list" where
  "parse_block remote_path acc block =
     (case re_search_tag ''<D:href>'' (\<lambda>c. c \<noteq> CHR ''<'') ''</D:href>'' block of
        None \<Rightarrow> acc
      | Some href \<Rightarrow>
          (let decoded_href = unquote href; (files, directories) = acc in
           if decoded_href = remote_path \<or> decoded_href = remote_path @ ''/'' then acc
           else if str_contains ''<D:collection/>'' block then
             (let dir_name = last (split (rstrip decoded_href CHR ''/'') ''/'') in
              if dir_name \<noteq> [] then (files, directories @ [dir_name]) else acc)
           else
             (let filename = last (split decoded_href ''/'') in
              if filename \<noteq> [] \<and> \<not> suffix ''/'' filename then (files @ [filename], directories)
              else acc)))"

definition parse_listing :: "string \<Rightarrow> string \<Rightarrow> string list \<times> string list" where
  "parse_listing remote_path content =
     foldl (parse_block remote_path) ([], []) (tl (split content ''<D:response''))"

text \<open>The loop \<open>for attempt in range(max_retries)\<close> of the lister, over the attempts left.\<close>

fun list_attempts ::
  "'w env \<Rightarrow> string \<Rightarrow> string \<Rightarrow> nat \<Rightarrow> nat list \<Rightarrow> 'w world
     \<Rightarrow> (string list \<times> string list) \<times> 'w world" where
  "list_attempts env url remote_path max_retries [] w = (([], []), w)"
| "list_attempts env url remote_path max_retries (attempt # rest) w =
     (let (r, w1) = perform env (Http PROPFIND url (Some ''1'') None) w in
      case r of
        Response status_code content \<Rightarrow>
          if status_code = 207 then (parse_listing remote_path content, w1)
          else list_attempts env url remote_path max_retries rest
                 (backoff 2000 attempt max_retries w1)
      | _ \<Rightarrow> list_attempts env url remote_path max_retries rest
                 (backoff 2000 attempt max_retries w1))"

definition list_webdav_directory ::
  "'w env \<Rightarrow> string \<Rightarrow> string \<Rightarrow> nat \<Rightarrow> 'w world \<Rightarrow> (string list \<times> string list) \<times> 'w world" where
  "list_webdav_directory env base_url remote_path max_retries w =
     list_attempts env (get_webdav_url base_url remote_path) remote_path max_retries
       [0..<max_retries] w"

subsection \<open>File download\<close>

fun download_attempts ::
  "'w env \<Rightarrow> string \<Rightarrow> string \<Rightarrow> nat \<Rightarrow> nat list \<Rightarrow> 'w world \<Rightarrow> bool \<times> 'w world" where
  "download_attempts env url local_file max_retries [] w = (False, w)"
| "download_attempts env url local_file max_retries (attempt # rest) w =
     (let (r, w1) = perform env (Http GET url None None) w in
      case r of
        Response status_code content \<Rightarrow>
          if status_code = 200 then
            (let (r2, w2) = perform env (WriteFile local_file content) w1 in
             if r2 = Raised then
               download_attempts env url local_file max_retries rest
                 (backoff 2000 attempt max_retries w2)
             else (True, w2))
          else download_attempts env url local_file max_retries rest
                 (backoff 2000 attempt max_retries w1)
      | _ \<Rightarrow> download_attempts env url local_file max_retries rest
                 (backoff 2000 attempt max_retries w1))"

definition download_webdav_file ::
  "'w env \<Rightarrow> string \<Rightarrow> string \<Rightarrow> string \<Rightarrow> nat \<Rightarrow> 'w world \<Rightarrow> bool \<times> 'w world" where
  "download_webdav_file env base_url remote_file local_file max_retries w =
     download_attempts env (get_webdav_url base_url remote_file) local_file max_retries
       [0..<max_retries] w"

subsection \<open>Metadata probe\<close>

record file_info =
  size_f :: "nat option"
  modified_f :: "string option"

definition parse_info :: "string \<Rightarrow> file_info" where
  "parse_info content =
     (let size_match =
            re_search_tag ''<lp1:getcontentlength>'' is_digit ''</lp1:getcontentlength>'' content;
          modified_match =
            re_search_tag ''<lp1:getlastmodified>'' (\<lambda>c. c \<noteq> CHR ''<'') ''</lp1:getlastmodified>''
              content
      in \<lparr>size_f = map_option int_of_digits size_match, modified_f = modified_match\<rparr>)"

fun info_attempts ::
  "'w env \<Rightarrow> string \<Rightarrow> nat \<Rightarrow> nat list \<Rightarrow> 'w world \<Rightarrow> file_info option \<times> 'w world" where
  "info_attempts env url max_retries [] w = (None, w)"
| "info_attempts env url max_retries (attempt # rest) w =
     (let (r, w1) = perform env (Http PROPFIND url (Some ''0'') None) w in
      case r of
        Response status_code content \<Rightarrow>
          if status_code = 207 then (Some (parse_info content), w1)
          else if status_code = 404 then (None, w1)
          else info_attempts env url max_retries rest (backoff 1000 attempt max_retries w1)
      | _ \<Rightarrow> info_attempts env url max_retries rest (backoff 1000 attempt max_retries w1))"

definition get_remote_file_info ::
  "'w env \<Rightarrow> string \<Rightarrow> string \<Rightarrow> nat \<Rightarrow> 'w world \<Rightarrow> file_info option \<times> 'w world" where
  "get_remote_file_info env base_url remote_file max_retries w =
     info_attempts env (get_webdav_url base_url remote_file) max_retries [0..<max_retries] w"

subsection \<open>Local files and the change-detection policy\<close>

text \<open>
  An entry of a local directory, as \<open>Path.iterdir\<close> yields it: a regular file with its
  bytes, a directory with its entries, or something that is neither.
\<close>

datatype item =
    File string string
  | Dir string "item list"
  | Other string

text \<open>\<open>local_file.stat().st_size\<close>: the length of the file in bytes.\<close>

definition st_size :: "string \<Rightarrow> nat" where
  "st_size content = length content"

definition should_upload_file ::
  "'w env \<Rightarrow> string \<Rightarrow> string \<Rightarrow> string \<Rightarrow> 'w world \<Rightarrow> (bool \<times> string) \<times> 'w world" where
  "should_upload_file env base_url local_content remote_file w =
     (let (remote_info, w1) = get_remote_file_info env base_url remote_file 3 w in
      case remote_info of
        None \<Rightarrow> ((True, ''new file''), w1)
      | Some info \<Rightarrow>
          (let local_size = st_size local_content in
           if size_f info \<noteq> Some local_size then
             ((True, ''size changed ('' @ str_opt (size_f info) @ '' -> '' @ str_nat local_size
                       @ '')''), w1)
           else ((False, ''unchanged''), w1)))"

subsection \<open>File upload\<close>

fun upload_attempts ::
  "'w env \<Rightarrow> string \<Rightarrow> string \<Rightarrow> nat \<Rightarrow> nat list \<Rightarrow> 'w world \<Rightarrow> bool \<times> 'w world" where
  "upload_attempts env url local_content max_retries [] w = (False, w)"
| "upload_attempts env url local_content max_retries (attempt # rest) w =
     (let (r, w1) = perform env (Http PUT url None (Some local_content)) w in
      case r of
        Response status_code content \<Rightarrow>
          if status_code \<in> set [200, 201, 204] then (True, w1)
          else upload_attempts env url local_content max_retries rest
                 (backoff 2000 attempt max_retries w1)
      | _ \<Rightarrow> upload_attempts env url local_content max_retries rest
                 (backoff 2000 attempt max_retries w1))"

definition upload_webdav_file ::
  "'w env \<Rightarrow> string \<Rightarrow> string \<Rightarrow> string \<Rightarrow> nat \<Rightarrow> 'w world \<Rightarrow> bool \<times> 'w world" where
  "upload_webdav_file env base_url local_content remote_file max_retries w =
     (let url = get_webdav_url base_url remote_file;
          remote_dir = join ''/'' (butlast (split remote_file ''/''));
          w1 = (if remote_dir \<noteq> [] then
                  snd (perform env (Http MKCOL (get_webdav_url base_url remote_dir) None None) w)
                else w)
      in upload_attempts env url local_content max_retries [0..<max_retries] w1)"

subsection \<open>Upload walker\<close>

text \<open>
  The loop over \<open>local_path.iterdir()\<close> with its three counters
  (\<open>success_count\<close>, \<open>total_files\<close>, \<open>skipped_count\<close>); a subdirectory starts a new walk
  with fresh counters, whose results are added.
\<close>

fun upload_items ::
  "'w env \<Rightarrow> string \<Rightarrow> item list \<Rightarrow> string \<Rightarrow> bool \<Rightarrow> nat \<times> nat \<times> nat \<Rightarrow> 'w world
     \<Rightarrow> (nat \<times> nat \<times> nat) \<times> 'w world" where
  "upload_items env base_url [] remote_path execute counts w = (counts, w)"
| "upload_items env base_url (File nm content # rest) remote_path execute
       (success_count, total_files, skipped_count) w =
     (let remote_file = remote_path @ ''/'' @ nm;
          ((should_upload, reason), w1) = should_upload_file env base_url content remote_file w
      in if should_upload then
           (if execute then
              (let (ok, w2) = upload_webdav_file env base_url content remote_file 3 w1 in
               upload_items env base_url rest remote_path execute
                 (if ok then success_count + 1 else success_count, total_files + 1,
                  skipped_count) w2)
            else upload_items env base_url rest remote_path execute
                   (success_count + 1, total_files + 1, skipped_count) w1)
         else upload_items env base_url rest remote_path execute
                (success_count, total_files + 1, skipped_count + 1) w1)"
| "upload_items env base_url (Dir nm entries # rest) remote_path execute
       (success_count, total_files, skipped_count) w =
     (let sub_remote_path = remote_path @ ''/'' @ nm;
          ((sub_success, sub_total, sub_skipped), w1) =
             upload_items env base_url entries sub_remote_path execute (0, 0, 0) w
      in upload_items env base_url rest remote_path execute
           (success_count + sub_success, total_files + sub_total, skipped_count + sub_skipped)
           w1)"
| "upload_items env base_url (Other nm # rest) remote_path execute counts w =
     upload_items env base_url rest remote_path execute counts w"

definition upload_directory_recursive ::
  "'w env \<Rightarrow> string \<Rightarrow> item list \<Rightarrow> string \<Rightarrow> bool \<Rightarrow> 'w world
     \<Rightarrow> (nat \<times> nat \<times> nat) \<times> 'w world" where
  "upload_directory_recursive env base_url local_path remote_path execute w =
     upload_items env base_url local_path remote_path execute (0, 0, 0) w"

text \<open>
  The number of files whose real upload fails during a walk in execute mode: the same
  traversal as \<^const>\<open>upload_items\<close> with \<open>execute\<close> true, counting the files that
  the policy selects and \<^const>\<open>upload_webdav_file\<close> reports as failed. It is used
  to state what the counters of the walker leave out.
\<close>

fun failed_items ::
  "'w env \<Rightarrow> string \<Rightarrow> item list \<Rightarrow> string \<Rightarrow> nat \<Rightarrow> 'w world \<Rightarrow> nat \<times> 'w world" where
  "failed_items env base_url [] remote_path failed w = (failed, w)"
| "failed_items env base_url (File nm content # rest) remote_path failed w =
     (let remote_file = remote_path @ ''/'' @ nm;
          ((should_upload, reason), w1) = should_upload_file env base_url content remote_file w
      in if should_upload then
           (let (ok, w2) = upload_webdav_file env base_url content remote_file 3 w1 in
            failed_items env base_url rest remote_path (if ok then failed else failed + 1) w2)
         else failed_items env base_url rest remote_path failed w1)"
| "failed_items env base_url (Dir nm entries # rest) remote_path failed w =
     (let (sub_failed, w1) =
             failed_items env base_url entries (remote_path @ ''/'' @ nm) 0 w
      in failed_items env base_url rest remote_path (failed + sub_failed) w1)"
| "failed_items env base_url (Other nm # rest) remote_path failed w =
     failed_items env base_url rest remote_path failed w"

definition failed_uploads :: "'w env \<Rightarrow> string \<Rightarrow> item list \<Rightarrow> string \<Rightarrow> 'w world \<Rightarrow> nat" where
  "failed_uploads env base_url local_path remote_path w =
     fst (failed_items env base_url local_path remote_path 0 w)"

text \<open>An action that writes to the remote: a \<open>PUT\<close> or a \<open>MKCOL\<close> request.\<close>

fun remote_write :: "action \<Rightarrow> bool" where
  "remote_write (Http m url depth payload) = (m = PUT \<or> m = MKCOL)"
| "remote_write a = False"

text \<open>The requests of one method among a list of actions.\<close>

fun has_method :: "http_method \<Rightarrow> action \<Rightarrow> bool" where
  "has_method m (Http m' url depth payload) = (m' = m)"
| "has_method m a = False"

definition requests :: "http_method \<Rightarrow> action list \<Rightarrow> action list" where
  "requests m acts = filter (has_method m) acts"

subsection \<open>Download walker\<close>

text \<open>
  An exception that no \<open>try\<close> of the script catches ends the walk: the only one in the
  model is \<open>local_path.mkdir\<close> failing.
\<close>

datatype error = OSError

text \<open>The loop over the listed files, with the counters \<open>success_count\<close>, \<open>total_files\<close>.\<close>

fun download_files ::
  "'w env \<Rightarrow> string \<Rightarrow> string \<Rightarrow> string \<Rightarrow> string list \<Rightarrow> nat \<times> nat \<Rightarrow> 'w world
     \<Rightarrow> (nat \<times> nat) \<times> 'w world" where
  "download_files env base_url remote_path local_path [] counts w = (counts, w)"
| "download_files env base_url remote_path local_path (filename # rest)
       (success_count, total_files) w =
     (let remote_file = remote_path @ ''/'' @ filename;
          local_file = local_path @ ''/'' @ filename;
          (ok, w1) = download_webdav_file env base_url remote_file local_file 3 w
      in download_files env base_url remote_path local_path rest
           (if ok then success_count + 1 else success_count, total_files + 1) (sleep 500 w1))"

text \<open>
  The loop over the listed subdirectories; \<open>walk\<close> is the recursive call. A walk that
  raises or does not return ends the loop with that outcome.
\<close>

fun download_dirs ::
  "(string \<Rightarrow> string \<Rightarrow> 'w world \<Rightarrow> (error + nat \<times> nat) option \<times> 'w world)
     \<Rightarrow> string \<Rightarrow> string \<Rightarrow> string list \<Rightarrow> nat \<times> nat \<Rightarrow> 'w world
     \<Rightarrow> (error + nat \<times> nat) option \<times> 'w world" where
  "download_dirs walk remote_path local_path [] counts w = (Some (Inr counts), w)"
| "download_dirs walk remote_path local_path (dirname # rest) (success_count, total_files) w =
     (case walk (remote_path @ ''/'' @ dirname) (local_path @ ''/'' @ dirname) w of
        (Some (Inr (sub_success, sub_total)), w1) \<Rightarrow>
          download_dirs walk remote_path local_path rest
            (success_count + sub_success, total_files + sub_total) w1
      | (Some (Inl e), w1) \<Rightarrow> (Some (Inl e), w1)
      | (None, w1) \<Rightarrow> (None, w1))"

text \<open>
  The remote hierarchy is whatever the server lists, so the recursion need not end. The
  first argument bounds the depth of the recursion; \<open>None\<close> is a walk that has not
  returned within it.
\<close>

primrec download_directory_recursive ::
  "nat \<Rightarrow> 'w env \<Rightarrow> string \<Rightarrow> string \<Rightarrow> string \<Rightarrow> 'w world
     \<Rightarrow> (error + nat \<times> nat) option \<times> 'w world" where
  "download_directory_recursive 0 env base_url remote_path local_path w = (None, w)"
| "download_directory_recursive (Suc fuel) env base_url remote_path local_path w =
     (let ((files, directories), w1) = list_webdav_directory env base_url remote_path 3 w;
          (r, w2) = perform env (Mkdir local_path) w1
      in if r = Raised then (Some (Inl OSError), w2)
         else
           (let (counts, w3) = download_files env base_url remote_path local_path files (0, 0) w2
            in download_dirs (download_directory_recursive fuel env base_url)
                 remote_path local_path directories counts w3))"

subsection \<open>Vocabulary of the statements\<close>

text \<open>When one attempt of a retry loop counts as failed, by the reply to its request.\<close>

fun listing_fails :: "reply \<Rightarrow> bool" where
  "listing_fails (Response status_code content) = (status_code \<noteq> 207)"
| "listing_fails r = True"

fun probe_fails :: "reply \<Rightarrow> bool" where
  "probe_fails (Response status_code content) = (status_code \<noteq> 207 \<and> status_code \<noteq> 404)"
| "probe_fails r = True"

fun put_fails :: "reply \<Rightarrow> bool" where
  "put_fails (Response status_code content) = (status_code \<notin> {200, 201, 204})"
| "put_fails r = True"

text \<open>
  The actions of a retry loop whose attempts all fail at the request: the request once
  per attempt, and the pause after every attempt but the last of \<open>max_retries\<close>.
\<close>

definition failed_trace :: "action \<Rightarrow> nat \<Rightarrow> nat \<Rightarrow> nat list \<Rightarrow> action list" where
  "failed_trace req ms max_retries attempts =
     concat (map (\<lambda>attempt. req # (if attempt < max_retries - 1 then [Sleep ms] else []))
       attempts)"

text \<open>Between two worlds, the process has only added actions that do not write to the remote.\<close>

definition quiet :: "'w world \<Rightarrow> 'w world \<Rightarrow> bool" where
  "quiet w w' = (\<exists>evs. trace w' = trace w @ evs \<and> (\<forall>a\<in>set evs. \<not> remote_write a))"

subsection \<open>Example remotes and trees\<close>

text \<open>
  A remote without state that holds \<open>/thetawave/data\<close> with \<open>a.json\<close> and the
  subdirectory \<open>sub\<close> with \<open>b.bin\<close>, and under \<open>/thetawave/media\<close> the file
  \<open>y.txt\<close> of 12 bytes and the file \<open>w.txt\<close> whose metadata carries no length. It
  accepts every upload but that of \<open>/thetawave/media/sub/z.bin\<close>.
\<close>

definition example_remote :: "unit env" where
  "example_remote s a =
     (case a of
        Http m url depth payload \<Rightarrow>
          if m = PROPFIND \<and> depth = Some ''1'' then
            (if url = ''https://webdav.pcloud.com/thetawave/data'' then
               (Response 207
                  (''<D:multistatus>'' @
                   ''<D:response><D:href>/thetawave/data/</D:href><D:collection/></D:response>'' @
                   ''<D:response><D:href>/thetawave/data/a.json</D:href></D:response>'' @
                   ''<D:response><D:href>/thetawave/data/sub/</D:href><D:collection/></D:response>'' @
                   ''</D:multistatus>''), s)
             else if url = ''https://webdav.pcloud.com/thetawave/data/sub'' then
               (Response 207
                  (''<D:multistatus>'' @
                   ''<D:response><D:href>/thetawave/data/sub/</D:href><D:collection/></D:response>'' @
                   ''<D:response><D:href>/thetawave/data/sub/b.bin</D:href></D:response>'' @
                   ''</D:multistatus>''), s)
             else (Response 404 [], s))
          else if m = PROPFIND then
            (if url = ''https://webdav.pcloud.com/thetawave/media/y.txt'' then
               (Response 207
                  (''<D:response><lp1:getcontentlength>12</lp1:getcontentlength>'' @
                   ''<lp1:getlastmodified>Mon, 01 Jan 2024 00:00:00 GMT</lp1:getlastmodified>'' @
                   ''</D:response>''), s)
             else if url = ''https://webdav.pcloud.com/thetawave/media/w.txt'' then
               (Response 207
                  (''<D:response>'' @
                   ''<lp1:getlastmodified>Mon, 01 Jan 2024 00:00:00 GMT</lp1:getlastmodified>'' @
                   ''</D:response>''), s)
             else (Response 404 [], s))
          else if m = GET then (Response 200 ''0123456789'', s)
          else if m = PUT then
            (if url = ''https://webdav.pcloud.com/thetawave/media/sub/z.bin'' then
               (Response 507 [], s)
             else (Response 201 [], s))
          else (Response 201 [], s)
      | _ \<Rightarrow> (Done, s))"

text \<open>A remote that answers every request with status 503.\<close>

definition failing_remote :: "unit env" where
  "failing_remote s a = (Response 503 [], s)"

definition start :: "unit world" where
  "start = \<lparr>outside = (), trace = []\<rparr>"

definition example_tree :: "item list" where
  "example_tree =
     [File ''x.png'' ''PNG-bytes'', File ''y.txt'' ''hello, world'', Other ''socket'',
      Dir ''sub'' [File ''z.bin'' ''zzz'']]"

section \<open>Basic facts about worlds and retry loops\<close>

lemma fst_perform [simp]: "fst (perform env a w) = fst (env (outside w) a)"
  by (simp add: perform_def case_prod_beta)

lemma trace_perform [simp]: "trace (snd (perform env a w)) = trace w @ [a]"
  by (simp add: perform_def case_prod_beta)

lemma outside_perform [simp]: "outside (snd (perform env a w)) = snd (env (outside w) a)"
  by (simp add: perform_def case_prod_beta)

lemma trace_sleep [simp]: "trace (sleep ms w) = trace w @ [Sleep ms]"
  by (simp add: sleep_def)

lemma outside_sleep [simp]: "outside (sleep ms w) = outside w"
  by (simp add: sleep_def)

lemma trace_backoff [simp]:
  "trace (backoff ms attempt max_retries w) =
     trace w @ (if attempt < max_retries - 1 then [Sleep ms] else [])"
  by (simp add: backoff_def)

lemma outside_backoff [simp]: "outside (backoff ms attempt max_retries w) = outside w"
  by (simp add: backoff_def)

lemma failed_trace_Nil [simp]: "failed_trace req ms max_retries [] = []"
  by (simp add: failed_trace_def)

lemma failed_trace_Cons [simp]:
  "failed_trace req ms max_retries (a # as) =
     req # (if a < max_retries - 1 then [Sleep ms] else []) @ failed_trace req ms max_retries as"
  by (simp add: failed_trace_def)

lemma requests_append [simp]: "requests m (xs @ ys) = requests m xs @ requests m ys"
  by (simp add: requests_def)

lemma requests_Nil [simp]: "requests m [] = []"
  by (simp add: requests_def)

lemma requests_Cons [simp]:
  "requests m (a # xs) = (if has_method m a then a # requests m xs else requests m xs)"
  by (simp add: requests_def)

lemma requests_failed_trace:
  "length (requests m (failed_trace (Http m url depth payload) ms max_retries attempts)) =
     length attempts"
  by (induction attempts) simp_all

lemma upto_3: "[0..<3] = [0, 1, 2]"
  by (simp add: upt_rec)

text \<open>One round of each retry loop, by the reply to its request.\<close>

lemma list_attempts_step:
  "list_attempts env url remote_path max_retries (attempt # rest) w =
     (case fst (env (outside w) (Http PROPFIND url (Some ''1'') None)) of
        Response status_code content \<Rightarrow>
          if status_code = 207
          then (parse_listing remote_path content,
                snd (perform env (Http PROPFIND url (Some ''1'') None) w))
          else list_attempts env url remote_path max_retries rest
                 (backoff 2000 attempt max_retries
                    (snd (perform env (Http PROPFIND url (Some ''1'') None) w)))
      | _ \<Rightarrow> list_attempts env url remote_path max_retries rest
                 (backoff 2000 attempt max_retries
                    (snd (perform env (Http PROPFIND url (Some ''1'') None) w))))"
  by (simp add: case_prod_beta split: reply.split)

lemma info_attempts_step:
  "info_attempts env url max_retries (attempt # rest) w =
     (case fst (env (outside w) (Http PROPFIND url (Some ''0'') None)) of
        Response status_code content \<Rightarrow>
          if status_code = 207
          then (Some (parse_info content), snd (perform env (Http PROPFIND url (Some ''0'') None) w))
          else if status_code = 404
          then (None, snd (perform env (Http PROPFIND url (Some ''0'') None) w))
          else info_attempts env url max_retries rest
                 (backoff 1000 attempt max_retries
                    (snd (perform env (Http PROPFIND url (Some ''0'') None) w)))
      | _ \<Rightarrow> info_attempts env url max_retries rest
                 (backoff 1000 attempt max_retries
                    (snd (perform env (Http PROPFIND url (Some ''0'') None) w))))"
  by (simp add: case_prod_beta split: reply.split)

lemma upload_attempts_step:
  "upload_attempts env url local_content max_retries (attempt # rest) w =
     (case fst (env (outside w) (Http PUT url None (Some local_content))) of
        Response status_code content \<Rightarrow>
          if status_code \<in> {200, 201, 204}
          then (True, snd (perform env (Http PUT url None (Some local_content)) w))
          else upload_attempts env url local_content max_retries rest
                 (backoff 2000 attempt max_retries
                    (snd (perform env (Http PUT url None (Some local_content)) w)))
      | _ \<Rightarrow> upload_attempts env url local_content max_retries rest
                 (backoff 2000 attempt max_retries
                    (snd (perform env (Http PUT url None (Some local_content)) w))))"
  by (simp add: case_prod_beta split: reply.split)

lemma download_attempts_step:
  "download_attempts env url local_file max_retries (attempt # rest) w =
     (case fst (env (outside w) (Http GET url None None)) of
        Response status_code content \<Rightarrow>
          if status_code = 200 then
            (if fst (perform env (WriteFile local_file content)
                       (snd (perform env (Http GET url None None) w))) = Raised
             then download_attempts env url local_file max_retries rest
                    (backoff 2000 attempt max_retries
                       (snd (perform env (WriteFile local_file content)
                               (snd (perform env (Http GET url None None) w)))))
             else (True, snd (perform env (WriteFile local_file content)
                               (snd (perform env (Http GET url None None) w)))))
          else download_attempts env url local_file max_retries rest
                 (backoff 2000 attempt max_retries (snd (perform env (Http GET url None None) w)))
      | _ \<Rightarrow> download_attempts env url local_file max_retries rest
                 (backoff 2000 attempt max_retries (snd (perform env (Http GET url None None) w))))"
  by (simp add: case_prod_beta split: reply.split)

text \<open>The policy, by the result of the probe, and the world it leaves.\<close>

lemma fst_should_upload_file:
  "fst (should_upload_file env base_url local_content remote_file w) =
     (case fst (get_remote_file_info env base_url remote_file 3 w) of
        None \<Rightarrow> (True, ''new file'')
      | Some info \<Rightarrow>
          if size_f info \<noteq> Some (st_size local_content)
          then (True, ''size changed ('' @ str_opt (size_f info) @ '' -> '' @
                       str_nat (st_size local_content) @ '')'')
          else (False, ''unchanged''))"
  by (simp add: should_upload_file_def case_prod_beta Let_def split: option.split)

lemma snd_should_upload_file:
  "snd (should_upload_file env base_url local_content remote_file w) =
     snd (get_remote_file_info env base_url remote_file 3 w)"
  by (simp add: should_upload_file_def case_prod_beta Let_def split: option.split)

lemma sublist_mid: "sublist b (a @ b @ c)"
  unfolding sublist_def by blast

section \<open>The change-detection policy\<close>

text \<open>
  C2. For every local file and remote path: if the metadata probe yields absent
  (\<open>None\<close>), \<open>should_upload_file\<close> returns the decision true with the reason
  \<open>new file\<close>, exactly.
\<close>

theorem should_upload_new_file:
  assumes "fst (get_remote_file_info env base_url remote_file 3 w) = None"
  shows "fst (should_upload_file env base_url local_content remote_file w) = (True, ''new file'')"
  using assms by (simp add: fst_should_upload_file)

text \<open>The remote has no \<open>x.png\<close>: the probe is absent and the file is new.\<close>

theorem should_upload_new_file_witness:
  "fst (get_remote_file_info example_remote ''https://webdav.pcloud.com''
          ''/thetawave/media/x.png'' 3 start) = None \<and>
   fst (should_upload_file example_remote ''https://webdav.pcloud.com'' ''PNG-bytes''
          ''/thetawave/media/x.png'' start) = (True, ''new file'')"
proof -
  have h: "fst (get_remote_file_info example_remote ''https://webdav.pcloud.com''
                  ''/thetawave/media/x.png'' 3 start) = None"
    by code_simp
  have c: "fst (should_upload_file example_remote ''https://webdav.pcloud.com'' ''PNG-bytes''
                  ''/thetawave/media/x.png'' start) = (True, ''new file'')"
    by (rule should_upload_new_file [OF h])
  from h c show ?thesis by (rule conjI)
qed

text \<open>
  C3. For every local file and remote file whose probed sizes are equal,
  \<open>should_upload_file\<close> returns the decision false with the reason \<open>unchanged\<close>,
  exactly, whatever the bytes of the local file and the modification time in the
  probe; it leaves the world as the probe left it, so it has asked for nothing else.
\<close>

theorem should_upload_unchanged:
  assumes "fst (get_remote_file_info env base_url remote_file 3 w) = Some info"
    and "size_f info = Some (st_size local_content)"
  shows "should_upload_file env base_url local_content remote_file w =
           ((False, ''unchanged''), snd (get_remote_file_info env base_url remote_file 3 w))"
proof -
  have "fst (should_upload_file env base_url local_content remote_file w) = (False, ''unchanged'')"
    using assms by (simp add: fst_should_upload_file)
  then show ?thesis
    by (metis prod.collapse snd_should_upload_file)
qed

text \<open>
  The remote \<open>y.txt\<close> has 12 bytes; the local file has 12 bytes, whichever they are.
\<close>

theorem should_upload_unchanged_witness:
  "fst (get_remote_file_info example_remote ''https://webdav.pcloud.com''
          ''/thetawave/media/y.txt'' 3 start) =
     Some \<lparr>size_f = Some 12, modified_f = Some ''Mon, 01 Jan 2024 00:00:00 GMT''\<rparr> \<and>
   size_f \<lparr>size_f = Some 12, modified_f = Some ''Mon, 01 Jan 2024 00:00:00 GMT''\<rparr> =
     Some (st_size ''HELLO, WORLD'') \<and>
   should_upload_file example_remote ''https://webdav.pcloud.com'' ''HELLO, WORLD''
       ''/thetawave/media/y.txt'' start =
     ((False, ''unchanged''),
      snd (get_remote_file_info example_remote ''https://webdav.pcloud.com''
             ''/thetawave/media/y.txt'' 3 start))"
proof -
  have h1: "fst (get_remote_file_info example_remote ''https://webdav.pcloud.com''
                   ''/thetawave/media/y.txt'' 3 start) =
              Some \<lparr>size_f = Some 12, modified_f = Some ''Mon, 01 Jan 2024 00:00:00 GMT''\<rparr>"
    by code_simp
  have h2: "size_f \<lparr>size_f = Some 12, modified_f = Some ''Mon, 01 Jan 2024 00:00:00 GMT''\<rparr> =
              Some (st_size ''HELLO, WORLD'')"
    by (simp add: st_size_def)
  from should_upload_unchanged [OF h1 h2] h1 h2 show ?thesis by blast
qed

text \<open>
  C4. For every local file and remote file that both exist and whose probed sizes
  differ, \<open>should_upload_file\<close> returns the decision true, and its reason is
  \<open>size changed (R -> L)\<close> for the remote size \<open>R\<close> and the local size \<open>L\<close> in
  decimal, so it contains both sizes.
\<close>

theorem should_upload_size_changed:
  assumes "fst (get_remote_file_info env base_url remote_file 3 w) = Some info"
    and "size_f info = Some remote_size"
    and "remote_size \<noteq> st_size local_content"
  shows "fst (fst (should_upload_file env base_url local_content remote_file w)) \<and>
         snd (fst (should_upload_file env base_url local_content remote_file w)) =
           ''size changed ('' @ str_nat remote_size @ '' -> '' @
             str_nat (st_size local_content) @ '')'' \<and>
         sublist (str_nat remote_size)
           (snd (fst (should_upload_file env base_url local_content remote_file w))) \<and>
         sublist (str_nat (st_size local_content))
           (snd (fst (should_upload_file env base_url local_content remote_file w)))"
proof -
  let ?reason = "''size changed ('' @ str_nat remote_size @ '' -> '' @
                   str_nat (st_size local_content) @ '')''"
  have d: "fst (should_upload_file env base_url local_content remote_file w) = (True, ?reason)"
    using assms by (simp add: fst_should_upload_file str_opt_def)
  have s1: "sublist (str_nat remote_size) ?reason"
    by (rule sublist_mid)
  have "sublist (str_nat (st_size local_content))
          ((''size changed ('' @ str_nat remote_size @ '' -> '') @
             str_nat (st_size local_content) @ '')'')"
    by (rule sublist_mid)
  then have s2: "sublist (str_nat (st_size local_content)) ?reason" by simp
  from d s1 s2 show ?thesis by simp
qed

text \<open>The remote \<open>y.txt\<close> has 12 bytes, the local file 5.\<close>

theorem should_upload_size_changed_witness:
  "fst (get_remote_file_info example_remote ''https://webdav.pcloud.com''
          ''/thetawave/media/y.txt'' 3 start) =
     Some \<lparr>size_f = Some 12, modified_f = Some ''Mon, 01 Jan 2024 00:00:00 GMT''\<rparr> \<and>
   (12::nat) \<noteq> st_size ''hello'' \<and>
   fst (should_upload_file example_remote ''https://webdav.pcloud.com'' ''hello''
          ''/thetawave/media/y.txt'' start) = (True, ''size changed (12 -> 5)'') \<and>
   sublist (str_nat 12)
     (snd (fst (should_upload_file example_remote ''https://webdav.pcloud.com'' ''hello''
                  ''/thetawave/media/y.txt'' start))) \<and>
   sublist (str_nat (st_size ''hello''))
     (snd (fst (should_upload_file example_remote ''https://webdav.pcloud.com'' ''hello''
                  ''/thetawave/media/y.txt'' start)))"
proof -
  have h1: "fst (get_remote_file_info example_remote ''https://webdav.pcloud.com''
                   ''/thetawave/media/y.txt'' 3 start) =
              Some \<lparr>size_f = Some 12, modified_f = Some ''Mon, 01 Jan 2024 00:00:00 GMT''\<rparr>"
    by code_simp
  have h2: "size_f \<lparr>size_f = Some 12, modified_f = Some ''Mon, 01 Jan 2024 00:00:00 GMT''\<rparr> =
              Some 12"
    by simp
  have h3: "(12::nat) \<noteq> st_size ''hello''"
    by (simp add: st_size_def)
  have v: "fst (should_upload_file example_remote ''https://webdav.pcloud.com'' ''hello''
                  ''/thetawave/media/y.txt'' start) = (True, ''size changed (12 -> 5)'')"
    by code_simp
  from should_upload_size_changed [OF h1 h2 h3] h1 h3 v show ?thesis by blast
qed

section \<open>Retry loops whose attempts all fail\<close>

lemma list_attempts_all_fail:
  assumes "\<forall>s. listing_fails (fst (env s (Http PROPFIND url (Some ''1'') None)))"
  shows "fst (list_attempts env url remote_path max_retries attempts w) = ([], []) \<and>
         trace (snd (list_attempts env url remote_path max_retries attempts w)) =
           trace w @ failed_trace (Http PROPFIND url (Some ''1'') None) 2000 max_retries attempts"
proof (induction attempts arbitrary: w)
  case Nil
  show ?case by simp
next
  case (Cons attempt rest)
  have f: "listing_fails (fst (env (outside w) (Http PROPFIND url (Some ''1'') None)))"
    using assms by blast
  show ?case
  proof (cases "fst (env (outside w) (Http PROPFIND url (Some ''1'') None))")
    case (Response status_code content)
    with f have "status_code \<noteq> 207" by simp
    with Response show ?thesis
      by (simp add: list_attempts_step Cons.IH del: list_attempts.simps)
  next
    case Raised
    then show ?thesis by (simp add: list_attempts_step Cons.IH del: list_attempts.simps)
  next
    case Done
    then show ?thesis by (simp add: list_attempts_step Cons.IH del: list_attempts.simps)
  qed
qed

lemma info_attempts_all_fail:
  assumes "\<forall>s. probe_fails (fst (env s (Http PROPFIND url (Some ''0'') None)))"
  shows "fst (info_attempts env url max_retries attempts w) = None \<and>
         trace (snd (info_attempts env url max_retries attempts w)) =
           trace w @ failed_trace (Http PROPFIND url (Some ''0'') None) 1000 max_retries attempts"
proof (induction attempts arbitrary: w)
  case Nil
  show ?case by simp
next
  case (Cons attempt rest)
  have f: "probe_fails (fst (env (outside w) (Http PROPFIND url (Some ''0'') None)))"
    using assms by blast
  show ?case
  proof (cases "fst (env (outside w) (Http PROPFIND url (Some ''0'') None))")
    case (Response status_code content)
    with f have "status_code \<noteq> 207" "status_code \<noteq> 404" by simp_all
    with Response show ?thesis
      by (simp add: info_attempts_step Cons.IH del: info_attempts.simps)
  next
    case Raised
    then show ?thesis by (simp add: info_attempts_step Cons.IH del: info_attempts.simps)
  next
    case Done
    then show ?thesis by (simp add: info_attempts_step Cons.IH del: info_attempts.simps)
  qed
qed

lemma upload_attempts_all_fail:
  assumes "\<forall>s. put_fails (fst (env s (Http PUT url None (Some local_content))))"
  shows "fst (upload_attempts env url local_content max_retries attempts w) = False \<and>
         trace (snd (upload_attempts env url local_content max_retries attempts w)) =
           trace w @ failed_trace (Http PUT url None (Some local_content)) 2000 max_retries attempts"
proof (induction attempts arbitrary: w)
  case Nil
  show ?case by simp
next
  case (Cons attempt rest)
  have f: "put_fails (fst (env (outside w) (Http PUT url None (Some local_content))))"
    using assms by blast
  show ?case
  proof (cases "fst (env (outside w) (Http PUT url None (Some local_content)))")
    case (Response status_code content)
    with f have "status_code \<notin> {200, 201, 204}" by simp
    with Response show ?thesis
      by (simp add: upload_attempts_step Cons.IH del: upload_attempts.simps)
  next
    case Raised
    then show ?thesis by (simp add: upload_attempts_step Cons.IH del: upload_attempts.simps)
  next
    case Done
    then show ?thesis by (simp add: upload_attempts_step Cons.IH del: upload_attempts.simps)
  qed
qed

lemma download_attempts_all_fail:
  assumes "\<forall>s status_code content.
             fst (env s (Http GET url None None)) = Response status_code content \<longrightarrow>
             status_code \<noteq> 200 \<or> (\<forall>s'. fst (env s' (WriteFile local_file content)) = Raised)"
  shows "fst (download_attempts env url local_file max_retries attempts w) = False \<and>
         length (requests GET
                   (trace (snd (download_attempts env url local_file max_retries attempts w)))) =
           length (requests GET (trace w)) + length attempts"
proof (induction attempts arbitrary: w)
  case Nil
  show ?case by simp
next
  case (Cons attempt rest)
  show ?case
  proof (cases "fst (env (outside w) (Http GET url None None))")
    case (Response status_code content)
    with assms have
      "status_code \<noteq> 200 \<or> (\<forall>s'. fst (env s' (WriteFile local_file content)) = Raised)"
      by blast
    with Response show ?thesis
      by (auto simp add: download_attempts_step Cons.IH simp del: download_attempts.simps)
  next
    case Raised
    then show ?thesis by (simp add: download_attempts_step Cons.IH del: download_attempts.simps)
  next
    case Done
    then show ?thesis by (simp add: download_attempts_step Cons.IH del: download_attempts.simps)
  qed
qed

section \<open>Retry exhaustion\<close>

text \<open>
  C6. For every remote path: when every listing attempt fails (a status other than 207,
  or an exception, whatever the state of the remote), \<open>list_webdav_directory\<close> with
  its three attempts returns the pair of empty lists. The result has no error branch,
  and it is the value that a listing answered with an empty multi-status body returns,
  so a caller cannot tell the failure from an empty directory.
\<close>

theorem listing_failure_is_empty:
  assumes "\<forall>s. listing_fails
                 (fst (env s (Http PROPFIND (get_webdav_url base_url remote_path) (Some ''1'') None)))"
  shows "fst (list_webdav_directory env base_url remote_path 3 w) = ([], []) \<and>
         fst (list_webdav_directory env base_url remote_path 3 w) =
           fst (list_webdav_directory (\<lambda>s a. (Response 207 [], s)) base_url remote_path 3 w)"
proof -
  have a: "fst (list_webdav_directory env base_url remote_path 3 w) = ([], [])"
    using list_attempts_all_fail [where env = env and url = "get_webdav_url base_url remote_path", OF assms] by (simp add: list_webdav_directory_def)
  have b: "fst (list_webdav_directory (\<lambda>s a. (Response 207 [], s)) base_url remote_path 3 w)
             = ([], [])"
    by (simp add: list_webdav_directory_def upto_3 list_attempts_step parse_listing_def split_def
          del: list_attempts.simps)
  from a b show ?thesis by simp
qed

text \<open>Against the remote that answers 503 to everything.\<close>

theorem listing_failure_is_empty_witness:
  "(\<forall>s. listing_fails
          (fst (failing_remote s
                  (Http PROPFIND (get_webdav_url ''https://webdav.pcloud.com'' ''/thetawave/data'')
                     (Some ''1'') None)))) \<and>
   fst (list_webdav_directory failing_remote ''https://webdav.pcloud.com'' ''/thetawave/data'' 3
          start) = ([], [])"
proof -
  have h: "\<forall>s. listing_fails
          (fst (failing_remote s
                  (Http PROPFIND (get_webdav_url ''https://webdav.pcloud.com'' ''/thetawave/data'')
                     (Some ''1'') None)))"
    by (simp add: failing_remote_def)
  from listing_failure_is_empty [where env = failing_remote and base_url = "''https://webdav.pcloud.com''"
      and remote_path = "''/thetawave/data''", OF h] h
  show ?thesis by blast
qed

text \<open>
  C7. For each of the three primitives with a retry loop (directory lister, file
  download, file upload) and every \<open>max_retries\<close>: if every attempt fails, the
  primitive returns its failure value (empty lists, respectively \<open>False\<close>) and has
  sent exactly \<open>max_retries\<close> requests of its method (\<open>PROPFIND\<close>, \<open>GET\<close>,
  \<open>PUT\<close>) beyond those sent before. A download attempt fails when the status is not
  200 or when storing the body raises.
\<close>

theorem retry_exhaustion:
  "((\<forall>s. listing_fails
           (fst (env s (Http PROPFIND (get_webdav_url base_url remote_path) (Some ''1'') None))))
      \<longrightarrow>
      fst (list_webdav_directory env base_url remote_path max_retries w) = ([], []) \<and>
      length (requests PROPFIND
                (trace (snd (list_webdav_directory env base_url remote_path max_retries w)))) =
        length (requests PROPFIND (trace w)) + max_retries) \<and>
   ((\<forall>s status_code content.
        fst (env s (Http GET (get_webdav_url base_url remote_file) None None)) =
          Response status_code content \<longrightarrow>
        status_code \<noteq> 200 \<or> (\<forall>s'. fst (env s' (WriteFile local_file content)) = Raised))
      \<longrightarrow>
      \<not> fst (download_webdav_file env base_url remote_file local_file max_retries w) \<and>
      length (requests GET
                (trace (snd (download_webdav_file env base_url remote_file local_file
                               max_retries w)))) =
        length (requests GET (trace w)) + max_retries) \<and>
   ((\<forall>s. put_fails
           (fst (env s (Http PUT (get_webdav_url base_url remote_file) None (Some local_content)))))
      \<longrightarrow>
      \<not> fst (upload_webdav_file env base_url local_content remote_file max_retries w) \<and>
      length (requests PUT
                (trace (snd (upload_webdav_file env base_url local_content remote_file
                               max_retries w)))) =
        length (requests PUT (trace w)) + max_retries)"
proof (intro conjI impI)
  assume h: "\<forall>s. listing_fails
           (fst (env s (Http PROPFIND (get_webdav_url base_url remote_path) (Some ''1'') None)))"
  show "fst (list_webdav_directory env base_url remote_path max_retries w) = ([], [])"
    using list_attempts_all_fail [where env = env and url = "get_webdav_url base_url remote_path", OF h] by (simp add: list_webdav_directory_def)
  show "length (requests PROPFIND
                (trace (snd (list_webdav_directory env base_url remote_path max_retries w)))) =
        length (requests PROPFIND (trace w)) + max_retries"
    using list_attempts_all_fail [where env = env and url = "get_webdav_url base_url remote_path", OF h]
    by (simp add: list_webdav_directory_def requests_failed_trace)
next
  assume h: "\<forall>s status_code content.
        fst (env s (Http GET (get_webdav_url base_url remote_file) None None)) =
          Response status_code content \<longrightarrow>
        status_code \<noteq> 200 \<or> (\<forall>s'. fst (env s' (WriteFile local_file content)) = Raised)"
  show "\<not> fst (download_webdav_file env base_url remote_file local_file max_retries w)"
    using download_attempts_all_fail [where env = env and url = "get_webdav_url base_url remote_file" and local_file = local_file, OF h] by (simp add: download_webdav_file_def)
  show "length (requests GET
                (trace (snd (download_webdav_file env base_url remote_file local_file
                               max_retries w)))) =
        length (requests GET (trace w)) + max_retries"
    using download_attempts_all_fail [where env = env and url = "get_webdav_url base_url remote_file" and local_file = local_file, OF h] by (simp add: download_webdav_file_def)
next
  assume h: "\<forall>s. put_fails
           (fst (env s (Http PUT (get_webdav_url base_url remote_file) None (Some local_content))))"
  show "\<not> fst (upload_webdav_file env base_url local_content remote_file max_retries w)"
    using upload_attempts_all_fail [where env = env and url = "get_webdav_url base_url remote_file" and local_content = local_content, OF h] by (simp add: upload_webdav_file_def Let_def)
  show "length (requests PUT
                (trace (snd (upload_webdav_file env base_url local_content remote_file
                               max_retries w)))) =
        length (requests PUT (trace w)) + max_retries"
    using upload_attempts_all_fail [where env = env and url = "get_webdav_url base_url remote_file" and local_content = local_content, OF h]
    by (simp add: upload_webdav_file_def Let_def requests_failed_trace)
qed

text \<open>Against the remote that answers 503 to everything, with the default of 3 attempts.\<close>

theorem retry_exhaustion_witness:
  "(\<forall>s. listing_fails
          (fst (failing_remote s
                  (Http PROPFIND (get_webdav_url ''https://webdav.pcloud.com'' ''/thetawave/data'')
                     (Some ''1'') None)))) \<and>
   fst (list_webdav_directory failing_remote ''https://webdav.pcloud.com'' ''/thetawave/data'' 3
          start) = ([], []) \<and>
   length (requests PROPFIND
             (trace (snd (list_webdav_directory failing_remote ''https://webdav.pcloud.com''
                            ''/thetawave/data'' 3 start)))) =
     length (requests PROPFIND (trace start)) + 3 \<and>
   (\<forall>s. put_fails
          (fst (failing_remote s
                  (Http PUT (get_webdav_url ''https://webdav.pcloud.com'' ''/thetawave/media/x.png'')
                     None (Some ''PNG-bytes''))))) \<and>
   \<not> fst (upload_webdav_file failing_remote ''https://webdav.pcloud.com'' ''PNG-bytes''
            ''/thetawave/media/x.png'' 3 start) \<and>
   length (requests PUT
             (trace (snd (upload_webdav_file failing_remote ''https://webdav.pcloud.com''
                            ''PNG-bytes'' ''/thetawave/media/x.png'' 3 start)))) =
     length (requests PUT (trace start)) + 3 \<and>
   \<not> fst (download_webdav_file failing_remote ''https://webdav.pcloud.com''
            ''/thetawave/data/a.json'' ''assets/data/a.json'' 3 start) \<and>
   length (requests GET
             (trace (snd (download_webdav_file failing_remote ''https://webdav.pcloud.com''
                            ''/thetawave/data/a.json'' ''assets/data/a.json'' 3 start)))) =
     length (requests GET (trace start)) + 3"
proof -
  have h1: "\<forall>s. listing_fails
          (fst (failing_remote s
                  (Http PROPFIND (get_webdav_url ''https://webdav.pcloud.com'' ''/thetawave/data'')
                     (Some ''1'') None)))"
    by (simp add: failing_remote_def)
  have h2: "\<forall>s status_code content.
        fst (failing_remote s
               (Http GET (get_webdav_url ''https://webdav.pcloud.com'' ''/thetawave/data/a.json'')
                  None None)) = Response status_code content \<longrightarrow>
        status_code \<noteq> 200 \<or>
        (\<forall>s'. fst (failing_remote s' (WriteFile ''assets/data/a.json'' content)) = Raised)"
    by (simp add: failing_remote_def)
  have h3: "\<forall>s. put_fails
          (fst (failing_remote s
                  (Http PUT (get_webdav_url ''https://webdav.pcloud.com'' ''/thetawave/media/x.png'')
                     None (Some ''PNG-bytes''))))"
    by (simp add: failing_remote_def)
  note t = retry_exhaustion [where env = failing_remote
      and base_url = "''https://webdav.pcloud.com''" and remote_path = "''/thetawave/data''"
      and remote_file = "''/thetawave/data/a.json''" and local_file = "''assets/data/a.json''"
      and max_retries = 3 and w = start]
  note u = retry_exhaustion [where env = failing_remote
      and base_url = "''https://webdav.pcloud.com''"
      and remote_file = "''/thetawave/media/x.png''" and local_content = "''PNG-bytes''"
      and max_retries = 3 and w = start]
  from t h1 have c1:
    "fst (list_webdav_directory failing_remote ''https://webdav.pcloud.com'' ''/thetawave/data'' 3
          start) = ([], []) \<and>
     length (requests PROPFIND
             (trace (snd (list_webdav_directory failing_remote ''https://webdav.pcloud.com''
                            ''/thetawave/data'' 3 start)))) =
     length (requests PROPFIND (trace start)) + 3"
    by blast
  from t h2 have c2:
    "\<not> fst (download_webdav_file failing_remote ''https://webdav.pcloud.com''
            ''/thetawave/data/a.json'' ''assets/data/a.json'' 3 start) \<and>
     length (requests GET
             (trace (snd (download_webdav_file failing_remote ''https://webdav.pcloud.com''
                            ''/thetawave/data/a.json'' ''assets/data/a.json'' 3 start)))) =
     length (requests GET (trace start)) + 3"
    by blast
  from u h3 have c3:
    "\<not> fst (upload_webdav_file failing_remote ''https://webdav.pcloud.com'' ''PNG-bytes''
            ''/thetawave/media/x.png'' 3 start) \<and>
     length (requests PUT
             (trace (snd (upload_webdav_file failing_remote ''https://webdav.pcloud.com''
                            ''PNG-bytes'' ''/thetawave/media/x.png'' 3 start)))) =
     length (requests PUT (trace start)) + 3"
    by blast
  from h1 h3 c1 c2 c3 show ?thesis by blast
qed

section \<open>Metadata probe\<close>

text \<open>
  C5. For every remote path: when the server answers the probe with status 404,
  \<open>get_remote_file_info\<close> returns absent at once, having sent that one request and
  slept not at all; the same holds in any round of the loop, whatever attempts are
  left. When every attempt fails otherwise (a status other than 207 and 404, or an
  exception), it sends three requests with a pause of one second after the first and
  after the second, and returns absent.
\<close>

theorem probe_not_found_and_retries:
  "(fst (env (outside w)
           (Http PROPFIND (get_webdav_url base_url remote_file) (Some ''0'') None)) =
      Response 404 content \<longrightarrow>
      fst (get_remote_file_info env base_url remote_file 3 w) = None \<and>
      trace (snd (get_remote_file_info env base_url remote_file 3 w)) =
        trace w @ [Http PROPFIND (get_webdav_url base_url remote_file) (Some ''0'') None]) \<and>
   (fst (env (outside w) (Http PROPFIND url (Some ''0'') None)) = Response 404 content \<longrightarrow>
      fst (info_attempts env url max_retries (attempt # rest) w) = None \<and>
      trace (snd (info_attempts env url max_retries (attempt # rest) w)) =
        trace w @ [Http PROPFIND url (Some ''0'') None]) \<and>
   ((\<forall>s. probe_fails
           (fst (env s (Http PROPFIND (get_webdav_url base_url remote_file) (Some ''0'') None))))
      \<longrightarrow>
      fst (get_remote_file_info env base_url remote_file 3 w) = None \<and>
      trace (snd (get_remote_file_info env base_url remote_file 3 w)) =
        trace w @
          [Http PROPFIND (get_webdav_url base_url remote_file) (Some ''0'') None, Sleep 1000,
           Http PROPFIND (get_webdav_url base_url remote_file) (Some ''0'') None, Sleep 1000,
           Http PROPFIND (get_webdav_url base_url remote_file) (Some ''0'') None])"
proof (intro conjI impI)
  assume h: "fst (env (outside w)
           (Http PROPFIND (get_webdav_url base_url remote_file) (Some ''0'') None)) =
      Response 404 content"
  show "fst (get_remote_file_info env base_url remote_file 3 w) = None"
    using h by (simp add: get_remote_file_info_def upto_3 info_attempts_step
          del: info_attempts.simps)
  show "trace (snd (get_remote_file_info env base_url remote_file 3 w)) =
        trace w @ [Http PROPFIND (get_webdav_url base_url remote_file) (Some ''0'') None]"
    using h by (simp add: get_remote_file_info_def upto_3 info_attempts_step
          del: info_attempts.simps)
next
  assume h: "fst (env (outside w) (Http PROPFIND url (Some ''0'') None)) = Response 404 content"
  show "fst (info_attempts env url max_retries (attempt # rest) w) = None"
    using h by (simp add: info_attempts_step del: info_attempts.simps)
  show "trace (snd (info_attempts env url max_retries (attempt # rest) w)) =
        trace w @ [Http PROPFIND url (Some ''0'') None]"
    using h by (simp add: info_attempts_step del: info_attempts.simps)
next
  assume h: "\<forall>s. probe_fails
           (fst (env s (Http PROPFIND (get_webdav_url base_url remote_file) (Some ''0'') None)))"
  note f = info_attempts_all_fail [where env = env
      and url = "get_webdav_url base_url remote_file", OF h]
  show "fst (get_remote_file_info env base_url remote_file 3 w) = None"
    using f by (simp add: get_remote_file_info_def)
  show "trace (snd (get_remote_file_info env base_url remote_file 3 w)) =
        trace w @
          [Http PROPFIND (get_webdav_url base_url remote_file) (Some ''0'') None, Sleep 1000,
           Http PROPFIND (get_webdav_url base_url remote_file) (Some ''0'') None, Sleep 1000,
           Http PROPFIND (get_webdav_url base_url remote_file) (Some ''0'') None]"
    using f [of 3 "[0..<3]" w]
    by (simp add: get_remote_file_info_def upto_3 del: info_attempts.simps)
qed

text \<open>
  The example remote has no \<open>x.png\<close> (404); the failing remote answers 503 three times.
\<close>

theorem probe_not_found_and_retries_witness:
  "fst (example_remote (outside start)
          (Http PROPFIND (get_webdav_url ''https://webdav.pcloud.com'' ''/thetawave/media/x.png'')
             (Some ''0'') None)) = Response 404 [] \<and>
   fst (get_remote_file_info example_remote ''https://webdav.pcloud.com''
          ''/thetawave/media/x.png'' 3 start) = None \<and>
   trace (snd (get_remote_file_info example_remote ''https://webdav.pcloud.com''
                 ''/thetawave/media/x.png'' 3 start)) =
     trace start @
       [Http PROPFIND (get_webdav_url ''https://webdav.pcloud.com'' ''/thetawave/media/x.png'')
          (Some ''0'') None] \<and>
   (\<forall>s. probe_fails
          (fst (failing_remote s
                  (Http PROPFIND
                     (get_webdav_url ''https://webdav.pcloud.com'' ''/thetawave/media/x.png'')
                     (Some ''0'') None)))) \<and>
   fst (get_remote_file_info failing_remote ''https://webdav.pcloud.com''
          ''/thetawave/media/x.png'' 3 start) = None \<and>
   trace (snd (get_remote_file_info failing_remote ''https://webdav.pcloud.com''
                 ''/thetawave/media/x.png'' 3 start)) =
     trace start @
       [Http PROPFIND (get_webdav_url ''https://webdav.pcloud.com'' ''/thetawave/media/x.png'')
          (Some ''0'') None, Sleep 1000,
        Http PROPFIND (get_webdav_url ''https://webdav.pcloud.com'' ''/thetawave/media/x.png'')
          (Some ''0'') None, Sleep 1000,
        Http PROPFIND (get_webdav_url ''https://webdav.pcloud.com'' ''/thetawave/media/x.png'')
          (Some ''0'') None]"
proof -
  have h1: "fst (example_remote (outside start)
          (Http PROPFIND (get_webdav_url ''https://webdav.pcloud.com'' ''/thetawave/media/x.png'')
             (Some ''0'') None)) = Response 404 []"
    by code_simp
  have h2: "\<forall>s. probe_fails
          (fst (failing_remote s
                  (Http PROPFIND
                     (get_webdav_url ''https://webdav.pcloud.com'' ''/thetawave/media/x.png'')
                     (Some ''0'') None)))"
    by (simp add: failing_remote_def)
  note t = probe_not_found_and_retries [where env = example_remote and w = start
      and base_url = "''https://webdav.pcloud.com''" and remote_file = "''/thetawave/media/x.png''"
      and content = "[]"]
  note u = probe_not_found_and_retries [where env = failing_remote and w = start
      and base_url = "''https://webdav.pcloud.com''" and remote_file = "''/thetawave/media/x.png''"]
  from t h1 have c1:
    "fst (get_remote_file_info example_remote ''https://webdav.pcloud.com''
          ''/thetawave/media/x.png'' 3 start) = None \<and>
     trace (snd (get_remote_file_info example_remote ''https://webdav.pcloud.com''
                 ''/thetawave/media/x.png'' 3 start)) =
     trace start @
       [Http PROPFIND (get_webdav_url ''https://webdav.pcloud.com'' ''/thetawave/media/x.png'')
          (Some ''0'') None]"
    by blast
  from u h2 have c2:
    "fst (get_remote_file_info failing_remote ''https://webdav.pcloud.com''
          ''/thetawave/media/x.png'' 3 start) = None \<and>
     trace (snd (get_remote_file_info failing_remote ''https://webdav.pcloud.com''
                 ''/thetawave/media/x.png'' 3 start)) =
     trace start @
       [Http PROPFIND (get_webdav_url ''https://webdav.pcloud.com'' ''/thetawave/media/x.png'')
          (Some ''0'') None, Sleep 1000,
        Http PROPFIND (get_webdav_url ''https://webdav.pcloud.com'' ''/thetawave/media/x.png'')
          (Some ''0'') None, Sleep 1000,
        Http PROPFIND (get_webdav_url ''https://webdav.pcloud.com'' ''/thetawave/media/x.png'')
          (Some ''0'') None]"
    by blast
  from h1 h2 c1 c2 show ?thesis by blast
qed




text \<open>The walker's step at a file, by the decision and the outcome of the upload.\<close>

lemma upload_items_File:
  "upload_items env base_url (File nm content # rest) remote_path execute (sc, tf, sk) w =
     (if fst (fst (should_upload_file env base_url content (remote_path @ ''/'' @ nm) w)) then
        (if execute then
           upload_items env base_url rest remote_path execute
             (if fst (upload_webdav_file env base_url content (remote_path @ ''/'' @ nm) 3
                        (snd (should_upload_file env base_url content (remote_path @ ''/'' @ nm) w)))
              then sc + 1 else sc, tf + 1, sk)
             (snd (upload_webdav_file env base_url content (remote_path @ ''/'' @ nm) 3
                     (snd (should_upload_file env base_url content (remote_path @ ''/'' @ nm) w))))
         else upload_items env base_url rest remote_path execute (sc + 1, tf + 1, sk)
                (snd (should_upload_file env base_url content (remote_path @ ''/'' @ nm) w)))
      else upload_items env base_url rest remote_path execute (sc, tf + 1, sk + 1)
             (snd (should_upload_file env base_url content (remote_path @ ''/'' @ nm) w)))"
  by (simp add: case_prod_beta Let_def)



section \<open>Path codec\<close>

lemma hex_digit_safe: "d < 16 \<Longrightarrow> hex_digit d \<in> set ''0123456789ABCDEF''"
  unfolding hex_digit_def by (rule nth_mem) simp

lemma hex_digit_not_slash: "d < 16 \<Longrightarrow> hex_digit d \<noteq> CHR ''/''"
  using hex_digit_safe [of d] by auto

lemma hex_digits_always_safe: "set ''0123456789ABCDEF'' \<subseteq> set always_safe"
  by (simp add: always_safe_def)

lemma of_char_div_16: "(of_char c :: nat) div 16 < 16"
proof -
  have "(of_char c :: nat) < 256" by simp
  then show ?thesis by (simp add: less_mult_imp_div_less)
qed

lemma slash_notin_percent: "CHR ''/'' \<notin> set (percent c)"
  using hex_digit_not_slash [OF of_char_div_16 [of c]]
        hex_digit_not_slash [of "of_char c mod 16"]
  by (simp add: percent_def)

lemma hex_digit_always_safe: "d < 16 \<Longrightarrow> hex_digit d \<in> set always_safe"
  by (rule subsetD [OF hex_digits_always_safe hex_digit_safe])

lemma set_percent: "set (percent c) \<subseteq> set always_safe \<union> {CHR ''%''}"
proof -
  have "of_char c mod 16 < (16::nat)" by simp
  from hex_digit_always_safe [OF of_char_div_16 [of c]] hex_digit_always_safe [OF this]
  show ?thesis by (simp add: percent_def)
qed

lemma quote_Nil [simp]: "quote [] safe = []"
  by (simp add: quote_def)

lemma quote_Cons:
  "quote (c # cs) safe =
     (if c \<in> set always_safe \<or> c \<in> set safe then [c] else percent c) @ quote cs safe"
  by (simp add: quote_def)

lemma quote_append: "quote (xs @ ys) safe = quote xs safe @ quote ys safe"
  by (simp add: quote_def)

lemma slash_not_always_safe: "CHR ''/'' \<notin> set always_safe"
  by (simp add: always_safe_def)

lemma split_from_slash:
  "split_from ''/'' 0 cur (c # cs) =
     (if c = CHR ''/'' then rev cur # split_from ''/'' 0 [] cs
      else split_from ''/'' 0 (c # cur) cs)"
  by simp

lemma split_from_no_slash:
  "CHR ''/'' \<notin> set xs \<Longrightarrow>
   split_from ''/'' 0 cur (xs @ ys) = split_from ''/'' 0 (rev xs @ cur) ys"
  by (induction xs arbitrary: cur) (auto simp del: split_from.simps simp add: split_from_slash)

lemma split_from_quote:
  "split_from ''/'' 0 (rev (quote acc [])) (quote s ''/'') =
     map (\<lambda>seg. quote seg []) (split_from ''/'' 0 (rev acc) s)"
proof (induction s arbitrary: acc)
  case Nil
  show ?case by simp
next
  case (Cons c cs)
  show ?case
  proof (cases "c = CHR ''/''")
    case True
    then show ?thesis
      using Cons.IH [of "[]"]
      by (simp add: quote_Cons split_from_slash del: split_from.simps)
  next
    case False
    let ?e = "if c \<in> set always_safe then [c] else percent c"
    have e: "quote (c # cs) ''/'' = ?e @ quote cs ''/''"
      using False by (simp add: quote_Cons)
    have n: "CHR ''/'' \<notin> set ?e"
      using False slash_notin_percent by simp
    have a: "rev ?e @ rev (quote acc []) = rev (quote (acc @ [c]) [])"
      by (simp add: quote_append quote_Cons)
    have "split_from ''/'' 0 (rev (quote acc [])) (quote (c # cs) ''/'') =
          split_from ''/'' 0 (rev (quote (acc @ [c]) [])) (quote cs ''/'')"
      unfolding e by (simp only: split_from_no_slash [OF n] a)
    also have "\<dots> = map (\<lambda>seg. quote seg []) (split_from ''/'' 0 (rev (acc @ [c])) cs)"
      by (rule Cons.IH)
    also have "\<dots> = map (\<lambda>seg. quote seg []) (split_from ''/'' 0 (rev acc) (c # cs))"
      using False by (simp add: split_from_slash del: split_from.simps)
    finally show ?thesis .
  qed
qed

lemma split_quote:
  "split (quote path ''/'') ''/'' = map (\<lambda>seg. quote seg []) (split path ''/'')"
  using split_from_quote [of "[]" path] by (simp add: split_def)

lemma set_quote: "set (quote path ''/'') \<subseteq> set always_safe \<union> {CHR ''/'', CHR ''%''}"
proof (induction path)
  case Nil
  show ?case by simp
next
  case (Cons c cs)
  have "set (if c \<in> set always_safe \<or> c \<in> set ''/'' then [c] else percent c) \<subseteq>
          set always_safe \<union> {CHR ''/'', CHR ''%''}"
    using set_percent [of c] by auto
  with Cons.IH show ?case by (simp only: quote_Cons set_append Un_subset_iff)
qed

lemma quote_no_leading_slash:
  assumes "\<not> prefix ''/'' path"
  shows "\<not> prefix ''/'' (quote path ''/'')"
proof (cases path)
  case Nil
  then show ?thesis by simp
next
  case (Cons c cs)
  with assms have c: "c \<noteq> CHR ''/''" by simp
  have "hd (quote (c # cs) ''/'') \<noteq> CHR ''/''"
    using c by (simp add: quote_Cons percent_def)
  moreover have "quote (c # cs) ''/'' \<noteq> []"
    by (simp add: quote_Cons percent_def)
  ultimately show ?thesis
    unfolding Cons by (cases "quote (c # cs) ''/''") simp_all
qed

text \<open>
  C8. For every logical path without a leading separator, \<open>get_webdav_url\<close> appends
  to the base URL a path with exactly one leading separator: a \<open>/\<close> followed by the
  encoded path, which does not start with \<open>/\<close>. Splitting the encoded path at \<open>/\<close>
  gives the segments of the logical path, each percent-encoded with no character
  exempt, so every separator is kept and none is added or encoded; and the encoded path
  consists of unreserved characters, \<open>/\<close> and \<open>%\<close> escapes only.
\<close>

theorem path_codec:
  assumes "\<not> prefix ''/'' path"
  shows "get_webdav_url base_url path = base_url @ ''/'' @ quote path ''/'' \<and>
         \<not> prefix ''/'' (quote path ''/'') \<and>
         split (''/'' @ quote path ''/'') ''/'' =
           map (\<lambda>seg. quote seg []) (split (''/'' @ path) ''/'') \<and>
         set (quote path ''/'') \<subseteq> set always_safe \<union> {CHR ''/'', CHR ''%''}"
proof -
  have a: "get_webdav_url base_url path = base_url @ ''/'' @ quote path ''/''"
    using assms by (simp add: get_webdav_url_def quote_Cons slash_not_always_safe)
  have "''/'' @ quote path ''/'' = quote (''/'' @ path) ''/''"
    by (simp add: quote_Cons)
  then have c: "split (''/'' @ quote path ''/'') ''/'' =
                map (\<lambda>seg. quote seg []) (split (''/'' @ path) ''/'')"
    by (simp only: split_quote)
  from a quote_no_leading_slash [OF assms] c set_quote show ?thesis by blast
qed

text \<open>A path with a space and a \<open>#\<close> in its last segment.\<close>

theorem path_codec_witness:
  "\<not> prefix ''/'' ''thetawave/my file#1.png'' \<and>
   get_webdav_url ''https://webdav.pcloud.com'' ''thetawave/my file#1.png'' =
     ''https://webdav.pcloud.com/thetawave/my%20file%231.png'' \<and>
   \<not> prefix ''/'' (quote ''thetawave/my file#1.png'' ''/'') \<and>
   split (''/'' @ quote ''thetawave/my file#1.png'' ''/'') ''/'' =
     [[], ''thetawave'', ''my%20file%231.png''] \<and>
   split (''/'' @ ''thetawave/my file#1.png'') ''/'' = [[], ''thetawave'', ''my file#1.png'']"
proof -
  have h: "\<not> prefix ''/'' ''thetawave/my file#1.png''"
    by simp
  have v1: "get_webdav_url ''https://webdav.pcloud.com'' ''thetawave/my file#1.png'' =
     ''https://webdav.pcloud.com/thetawave/my%20file%231.png''"
    by code_simp
  have v2: "split (''/'' @ quote ''thetawave/my file#1.png'' ''/'') ''/'' =
     [[], ''thetawave'', ''my%20file%231.png'']"
    by code_simp
  have v3: "split (''/'' @ ''thetawave/my file#1.png'') ''/'' = [[], ''thetawave'', ''my file#1.png'']"
    by code_simp
  from path_codec [OF h, of "''https://webdav.pcloud.com''"] h v1 v2 v3 show ?thesis by blast
qed

section \<open>Tree walkers\<close>

text \<open>Induction over a local directory: its entries, and the entries of its subdirectories.\<close>

lemma items_induct [case_names Nil File Dir Other]:
  assumes "P []"
    and "\<And>nm content rest. P rest \<Longrightarrow> P (File nm content # rest)"
    and "\<And>nm entries rest. P entries \<Longrightarrow> P rest \<Longrightarrow> P (Dir nm entries # rest)"
    and "\<And>nm rest. P rest \<Longrightarrow> P (Other nm # rest)"
  shows "P items"
proof (induction items rule: measure_induct_rule [where f = "size_list size"])
  case (less items)
  show ?case
  proof (cases items)
    case Nil
    with assms(1) show ?thesis by simp
  next
    case (Cons it rest)
    have r: "P rest" using less [of rest] Cons by simp
    show ?thesis
    proof (cases it)
      case (File nm content)
      with Cons r assms(2) show ?thesis by simp
    next
      case (Dir nm entries)
      have "P entries" using less [of entries] Cons Dir by simp
      with Cons Dir r assms(3) show ?thesis by simp
    next
      case (Other nm)
      with Cons r assms(4) show ?thesis by simp
    qed
  qed
qed

lemma upload_items_Dir:
  "upload_items env base_url (Dir nm entries # rest) remote_path execute (sc, tf, sk) w =
     upload_items env base_url rest remote_path execute
       (sc + fst (fst (upload_items env base_url entries (remote_path @ ''/'' @ nm) execute
                         (0, 0, 0) w)),
        tf + fst (snd (fst (upload_items env base_url entries (remote_path @ ''/'' @ nm) execute
                              (0, 0, 0) w))),
        sk + snd (snd (fst (upload_items env base_url entries (remote_path @ ''/'' @ nm) execute
                              (0, 0, 0) w))))
       (snd (upload_items env base_url entries (remote_path @ ''/'' @ nm) execute (0, 0, 0) w))"
  by (simp add: case_prod_beta Let_def)

lemma failed_items_File:
  "failed_items env base_url (File nm content # rest) remote_path failed w =
     (if fst (fst (should_upload_file env base_url content (remote_path @ ''/'' @ nm) w)) then
        failed_items env base_url rest remote_path
          (if fst (upload_webdav_file env base_url content (remote_path @ ''/'' @ nm) 3
                     (snd (should_upload_file env base_url content (remote_path @ ''/'' @ nm) w)))
           then failed else failed + 1)
          (snd (upload_webdav_file env base_url content (remote_path @ ''/'' @ nm) 3
                  (snd (should_upload_file env base_url content (remote_path @ ''/'' @ nm) w))))
      else failed_items env base_url rest remote_path failed
             (snd (should_upload_file env base_url content (remote_path @ ''/'' @ nm) w)))"
  by (simp add: case_prod_beta Let_def)

lemma failed_items_Dir:
  "failed_items env base_url (Dir nm entries # rest) remote_path failed w =
     failed_items env base_url rest remote_path
       (failed + fst (failed_items env base_url entries (remote_path @ ''/'' @ nm) 0 w))
       (snd (failed_items env base_url entries (remote_path @ ''/'' @ nm) 0 w))"
  by (simp add: case_prod_beta Let_def)

text \<open>Dry run: every file met is counted as selected or as skipped.\<close>

lemma upload_items_dry_counts:
  "upload_items env base_url items remote_path False (s0, t0, k0) w = ((s, t, k), w') \<Longrightarrow>
   s + k + t0 = t + s0 + k0"
proof (induction items arbitrary: remote_path s0 t0 k0 w s t k w' rule: items_induct)
  case Nil
  then show ?case by simp
next
  case (File nm content rest)
  let ?d = "should_upload_file env base_url content (remote_path @ ''/'' @ nm) w"
  show ?case
  proof (cases "fst (fst ?d)")
    case True
    with File.prems have
      "upload_items env base_url rest remote_path False (s0 + 1, t0 + 1, k0) (snd ?d) =
         ((s, t, k), w')"
      by (simp add: upload_items_File del: upload_items.simps)
    from File.IH [OF this] show ?thesis by simp
  next
    case False
    with File.prems have
      "upload_items env base_url rest remote_path False (s0, t0 + 1, k0 + 1) (snd ?d) =
         ((s, t, k), w')"
      by (simp add: upload_items_File del: upload_items.simps)
    from File.IH [OF this] show ?thesis by simp
  qed
next
  case (Dir nm entries rest)
  obtain ss st sk w1 where
    sub: "upload_items env base_url entries (remote_path @ ''/'' @ nm) False (0, 0, 0) w =
            ((ss, st, sk), w1)"
    by (metis prod_cases3 surj_pair)
  from Dir.IH(1) [OF sub] have eq: "ss + sk = st" by simp
  from Dir.prems sub have
    "upload_items env base_url rest remote_path False (s0 + ss, t0 + st, k0 + sk) w1 =
       ((s, t, k), w')"
    by (simp add: upload_items_Dir del: upload_items.simps)
  from Dir.IH(2) [OF this] eq show ?case by simp
next
  case (Other nm rest)
  from Other.prems have
    "upload_items env base_url rest remote_path False (s0, t0, k0) w = ((s, t, k), w')"
    by simp
  from Other.IH [OF this] show ?case .
qed

text \<open>
  Execute mode: the walk that counts failed uploads passes through the same worlds, and
  every file met is counted as uploaded, as skipped or as failed.
\<close>

lemma upload_items_execute_counts:
  "upload_items env base_url items remote_path True (s0, t0, k0) w = ((s, t, k), w') \<Longrightarrow>
   failed_items env base_url items remote_path f0 w = (f, w'') \<Longrightarrow>
   w'' = w' \<and> s + k + f + t0 = t + s0 + k0 + f0"
proof (induction items arbitrary: remote_path s0 t0 k0 f0 w s t k f w' w'' rule: items_induct)
  case Nil
  then show ?case by simp
next
  case (File nm content rest)
  let ?d = "should_upload_file env base_url content (remote_path @ ''/'' @ nm) w"
  let ?u = "upload_webdav_file env base_url content (remote_path @ ''/'' @ nm) 3 (snd ?d)"
  show ?case
  proof (cases "fst (fst ?d)")
    case False
    with File.prems have
      "upload_items env base_url rest remote_path True (s0, t0 + 1, k0 + 1) (snd ?d) =
         ((s, t, k), w')"
      "failed_items env base_url rest remote_path f0 (snd ?d) = (f, w'')"
      by (simp_all add: upload_items_File failed_items_File
            del: upload_items.simps failed_items.simps)
    from File.IH [OF this] show ?thesis by simp
  next
    case True
    note sel = True
    show ?thesis
    proof (cases "fst ?u")
      case True
      with sel File.prems have
        "upload_items env base_url rest remote_path True (s0 + 1, t0 + 1, k0) (snd ?u) =
           ((s, t, k), w')"
        "failed_items env base_url rest remote_path f0 (snd ?u) = (f, w'')"
        by (simp_all add: upload_items_File failed_items_File
              del: upload_items.simps failed_items.simps)
      from File.IH [OF this] show ?thesis by simp
    next
      case False
      with sel File.prems have
        "upload_items env base_url rest remote_path True (s0, t0 + 1, k0) (snd ?u) =
           ((s, t, k), w')"
        "failed_items env base_url rest remote_path (f0 + 1) (snd ?u) = (f, w'')"
        by (simp_all add: upload_items_File failed_items_File
              del: upload_items.simps failed_items.simps)
      from File.IH [OF this] show ?thesis by simp
    qed
  qed
next
  case (Dir nm entries rest)
  obtain ss st sk w1 where
    sub: "upload_items env base_url entries (remote_path @ ''/'' @ nm) True (0, 0, 0) w =
            ((ss, st, sk), w1)"
    by (metis prod_cases3 surj_pair)
  obtain fs w1' where
    fsub: "failed_items env base_url entries (remote_path @ ''/'' @ nm) 0 w = (fs, w1')"
    by (metis surj_pair)
  from Dir.IH(1) [OF sub fsub] have same: "w1' = w1" and eq: "ss + sk + fs = st" by simp_all
  from Dir.prems sub fsub same have
    "upload_items env base_url rest remote_path True (s0 + ss, t0 + st, k0 + sk) w1 =
       ((s, t, k), w')"
    "failed_items env base_url rest remote_path (f0 + fs) w1 = (f, w'')"
    by (simp_all add: upload_items_Dir failed_items_Dir
          del: upload_items.simps failed_items.simps)
  from Dir.IH(2) [OF this] eq show ?case by simp
next
  case (Other nm rest)
  from Other.prems have
    "upload_items env base_url rest remote_path True (s0, t0, k0) w = ((s, t, k), w')"
    "failed_items env base_url rest remote_path f0 w = (f, w'')"
    by simp_all
  from Other.IH [OF this] show ?case .
qed

text \<open>The download walker: each file listed adds one to the total and at most one success.\<close>

lemma download_files_counts:
  "download_files env base_url remote_path local_path files (s0, t0) w = ((s, t), w') \<Longrightarrow>
   s + t0 \<le> t + s0"
proof (induction files arbitrary: s0 t0 w)
  case Nil
  then show ?case by simp
next
  case (Cons filename rest)
  let ?d = "download_webdav_file env base_url (remote_path @ ''/'' @ filename)
              (local_path @ ''/'' @ filename) 3 w"
  from Cons.prems have
    "download_files env base_url remote_path local_path rest
       (if fst ?d then s0 + 1 else s0, t0 + 1) (sleep 500 (snd ?d)) = ((s, t), w')"
    by (simp add: case_prod_beta Let_def)
  from Cons.IH [OF this] show ?case by (simp split: if_splits)
qed

lemma download_dirs_counts:
  assumes walk: "\<And>rp lp v a b v'. walk rp lp v = (Some (Inr (a, b)), v') \<Longrightarrow> a \<le> b"
  shows "download_dirs walk remote_path local_path dirs (s0, t0) w = (Some (Inr (s, t)), w') \<Longrightarrow>
         s + t0 \<le> t + s0"
proof (induction dirs arbitrary: s0 t0 w)
  case Nil
  then show ?case by simp
next
  case (Cons dirname rest)
  let ?r = "walk (remote_path @ ''/'' @ dirname) (local_path @ ''/'' @ dirname) w"
  from Cons.prems obtain a b w1 where r: "?r = (Some (Inr (a, b)), w1)"
    and rest: "download_dirs walk remote_path local_path rest (s0 + a, t0 + b) w1 =
                 (Some (Inr (s, t)), w')"
    by (auto split: prod.splits option.splits sum.splits)
  from walk [OF r] Cons.IH [OF rest] show ?case by simp
qed

lemma download_walker_counts:
  "download_directory_recursive fuel env base_url remote_path local_path w =
     (Some (Inr (s, t)), w') \<Longrightarrow> s \<le> t"
proof (induction fuel arbitrary: remote_path local_path w s t w')
  case 0
  then show ?case by simp
next
  case (Suc fuel)
  let ?l = "list_webdav_directory env base_url remote_path 3 w"
  let ?m = "perform env (Mkdir local_path) (snd ?l)"
  let ?f = "download_files env base_url remote_path local_path (fst (fst ?l)) (0, 0) (snd ?m)"
  from Suc.prems have dirs:
    "download_dirs (download_directory_recursive fuel env base_url) remote_path local_path
       (snd (fst ?l)) (fst ?f) (snd ?f) = (Some (Inr (s, t)), w')"
    by (auto simp add: case_prod_beta Let_def split: if_splits)
  obtain a b where f: "?f = ((a, b), snd ?f)" by (metis prod.collapse)
  from download_files_counts [OF f] have ab: "a \<le> b" by simp
  from f dirs have rest:
    "download_dirs (download_directory_recursive fuel env base_url) remote_path local_path
       (snd (fst ?l)) (a, b) (snd ?f) = (Some (Inr (s, t)), w')"
    by (metis fst_conv)
  have "s + b \<le> t + a"
    by (rule download_dirs_counts [OF _ rest]) (rule Suc.IH)
  with ab show ?case by simp
qed

text \<open>
  A walk that returns within some depth returns the same counters and leaves the same
  world within any greater depth: the bound only decides whether a result is seen.
\<close>

lemma download_dirs_mono:
  assumes sub: "\<And>rp lp v r v'. walk rp lp v = (Some r, v') \<Longrightarrow> walk' rp lp v = (Some r, v')"
  shows "download_dirs walk remote_path local_path dirs counts w = (Some r, w') \<Longrightarrow>
         download_dirs walk' remote_path local_path dirs counts w = (Some r, w')"
proof (induction dirs arbitrary: counts w)
  case Nil
  then show ?case by simp
next
  case (Cons dirname rest)
  obtain s0 t0 where c: "counts = (s0, t0)" by (cases counts) auto
  let ?r = "walk (remote_path @ ''/'' @ dirname) (local_path @ ''/'' @ dirname) w"
  show ?case
  proof (cases "fst ?r")
    case None
    with Cons.prems c show ?thesis by (simp split: prod.splits)
  next
    case (Some x)
    then obtain w1 where r: "?r = (Some x, w1)" by (metis prod.collapse)
    note r' = sub [OF r]
    show ?thesis
    proof (cases x)
      case (Inl e)
      with Cons.prems c r r' show ?thesis by auto
    next
      case (Inr p)
      obtain a b where p: "p = (a, b)" by (cases p) auto
      from Cons.prems c r Inr p have
        "download_dirs walk remote_path local_path rest (s0 + a, t0 + b) w1 = (Some r, w')"
        by simp
      from Cons.IH [OF this] c r' Inr p show ?thesis by simp
    qed
  qed
qed

lemma download_fuel_Suc:
  "download_directory_recursive fuel env base_url remote_path local_path w = (Some r, w') \<Longrightarrow>
   download_directory_recursive (Suc fuel) env base_url remote_path local_path w = (Some r, w')"
proof (induction fuel arbitrary: remote_path local_path w r w')
  case 0
  then show ?case by simp
next
  case (Suc fuel)
  let ?l = "list_webdav_directory env base_url remote_path 3 w"
  let ?m = "perform env (Mkdir local_path) (snd ?l)"
  let ?f = "download_files env base_url remote_path local_path (fst (fst ?l)) (0, 0) (snd ?m)"
  show ?case
  proof (cases "fst ?m = Raised")
    case True
    with Suc.prems show ?thesis
      by (simp add: case_prod_beta Let_def)
  next
    case False
    with Suc.prems have
      "download_dirs (download_directory_recursive fuel env base_url) remote_path local_path
         (snd (fst ?l)) (fst ?f) (snd ?f) = (Some r, w')"
      by (simp add: case_prod_beta Let_def)
    then have
      "download_dirs (download_directory_recursive (Suc fuel) env base_url) remote_path local_path
         (snd (fst ?l)) (fst ?f) (snd ?f) = (Some r, w')"
      by (rule download_dirs_mono [rotated]) (rule Suc.IH)
    with False show ?thesis
      by (simp add: case_prod_beta Let_def del: download_directory_recursive.simps(2))
         (simp add: case_prod_beta Let_def)
  qed
qed

lemma download_fuel_mono:
  "download_directory_recursive fuel env base_url remote_path local_path w = (Some r, w') \<Longrightarrow>
   fuel \<le> fuel' \<Longrightarrow>
   download_directory_recursive fuel' env base_url remote_path local_path w = (Some r, w')"
proof (induction fuel')
  case 0
  then show ?case by simp
next
  case (Suc fuel')
  show ?case
  proof (cases "fuel = Suc fuel'")
    case True
    with Suc.prems show ?thesis by simp
  next
    case False
    with Suc.prems have "fuel \<le> fuel'" by simp
    from download_fuel_Suc [OF Suc.IH [OF Suc.prems(1) this]] show ?thesis .
  qed
qed

text \<open>
  C9. For every traversal: when the download walker returns counters, its success count
  is at most its total count. The upload walker's success count plus skipped count is
  at most its total count in both modes; the two are equal in a dry run; and in execute
  mode the total exceeds them by the number of files whose upload failed.
\<close>

theorem walker_counters:
  "(fst (download_directory_recursive fuel env base_url remote_path local_dir w) =
      Some (Inr (s, t)) \<longrightarrow> s \<le> t) \<and>
   (fst (upload_directory_recursive env base_url local_path remote_path execute w) =
      (sc, tf, sk) \<longrightarrow> sc + sk \<le> tf) \<and>
   (fst (upload_directory_recursive env base_url local_path remote_path False w) =
      (sc, tf, sk) \<longrightarrow> sc + sk = tf) \<and>
   (fst (upload_directory_recursive env base_url local_path remote_path True w) =
      (sc, tf, sk) \<longrightarrow>
      sc + sk + failed_uploads env base_url local_path remote_path w = tf)"
proof -
  have dl: "s \<le> t"
    if "fst (download_directory_recursive fuel env base_url remote_path local_dir w) =
          Some (Inr (s, t))"
    using that download_walker_counts [of fuel env base_url remote_path local_dir w s t]
    by (metis prod.collapse)
  have dry: "a + c = b"
    if "fst (upload_directory_recursive env base_url local_path remote_path False w) = (a, b, c)"
    for a b c
    using that upload_items_dry_counts [of env base_url local_path remote_path 0 0 0 w a b c]
    unfolding upload_directory_recursive_def by (metis add.right_neutral prod.collapse)
  have exe: "a + c + failed_uploads env base_url local_path remote_path w = b"
    if "fst (upload_directory_recursive env base_url local_path remote_path True w) = (a, b, c)"
    for a b c
    using that upload_items_execute_counts [of env base_url local_path remote_path 0 0 0 w a b c
        _ 0 "failed_uploads env base_url local_path remote_path w"]
    unfolding upload_directory_recursive_def failed_uploads_def
    by (metis add.right_neutral prod.collapse)
  have both: "sc + sk \<le> tf"
    if "fst (upload_directory_recursive env base_url local_path remote_path execute w) =
          (sc, tf, sk)"
    using that dry [of sc tf sk] exe [of sc tf sk] by (cases execute) auto
  from dl dry exe both show ?thesis by blast
qed

text \<open>
  The example remote holds two files under \<open>/thetawave/data\<close>, both downloaded. Of
  the three local files, \<open>y.txt\<close> is unchanged and the upload of \<open>z.bin\<close> is refused.
\<close>

theorem walker_counters_witness:
  "fst (download_directory_recursive 2 example_remote ''https://webdav.pcloud.com''
          ''/thetawave/data'' ''assets/data'' start) = Some (Inr (2, 2)) \<and>
   (2::nat) \<le> 2 \<and>
   fst (upload_directory_recursive example_remote ''https://webdav.pcloud.com'' example_tree
          ''/thetawave/media'' False start) = (2, 3, 1) \<and>
   (2::nat) + 1 = 3 \<and>
   fst (upload_directory_recursive example_remote ''https://webdav.pcloud.com'' example_tree
          ''/thetawave/media'' True start) = (1, 3, 1) \<and>
   1 + 1 + failed_uploads example_remote ''https://webdav.pcloud.com'' example_tree
             ''/thetawave/media'' start = 3"
proof -
  have h1: "fst (download_directory_recursive 2 example_remote ''https://webdav.pcloud.com''
          ''/thetawave/data'' ''assets/data'' start) = Some (Inr (2, 2))"
    by code_simp
  have h2: "fst (upload_directory_recursive example_remote ''https://webdav.pcloud.com''
          example_tree ''/thetawave/media'' False start) = (2, 3, 1)"
    by code_simp
  have h3: "fst (upload_directory_recursive example_remote ''https://webdav.pcloud.com''
          example_tree ''/thetawave/media'' True start) = (1, 3, 1)"
    by code_simp
  note t = walker_counters [where env = example_remote
      and base_url = "''https://webdav.pcloud.com''" and w = start
      and local_path = example_tree and remote_path = "''/thetawave/media''"
      and sc = 1 and tf = 3 and sk = 1]
  from t h3 have c3:
    "1 + 1 + failed_uploads example_remote ''https://webdav.pcloud.com'' example_tree
               ''/thetawave/media'' start = 3"
    by blast
  have c1: "(2::nat) \<le> 2" and c2: "(2::nat) + 1 = 3" by simp_all
  from h1 h2 h3 c1 c2 c3 show ?thesis by blast
qed

section \<open>Dry run against execute mode\<close>

lemma quiet_refl [simp]: "quiet w w"
  by (simp add: quiet_def)













end
